theory Spec2Isabelle
  imports Main "HOL-Library.Word"
begin

unbundle bit_operations_syntax

section \<open>The LS-8 style processor of cpu.py\<close>

text \<open>
  The class \<open>CPU\<close> of \<open>src/cpu.py\<close> is embedded as a record of its mutable attributes and
  one function per method. Python integers are unbounded, so every cell is an \<open>int\<close>.
  A Python exception is a value: a method that raises returns \<open>Inl (e, s)\<close>, the
  exception together with the object as the method left it (the attributes are mutated in
  place, so what was written before the raise stays written).
\<close>

subsection \<open>Python lists\<close>

datatype error = IndexError | Exception string

text \<open>
  Subscripting a list of length \<open>n\<close> with \<open>i\<close>: a negative index counts from the end,
  and anything outside \<open>-n .. n-1\<close> raises IndexError.
\<close>

definition py_index :: "nat \<Rightarrow> int \<Rightarrow> error + nat" where
  "py_index n i =
     (if i < 0
      then (if - int n \<le> i then Inr (nat (int n + i)) else Inl IndexError)
      else (if i < int n then Inr (nat i) else Inl IndexError))"

definition py_get :: "'a list \<Rightarrow> int \<Rightarrow> error + 'a" where
  "py_get xs i = (case py_index (length xs) i of Inl e \<Rightarrow> Inl e | Inr k \<Rightarrow> Inr (xs ! k))"

definition py_set :: "'a list \<Rightarrow> int \<Rightarrow> 'a \<Rightarrow> error + 'a list" where
  "py_set xs i v = (case py_index (length xs) i of Inl e \<Rightarrow> Inl e | Inr k \<Rightarrow> Inr (xs[k := v]))"

subsection \<open>The processor state\<close>

text \<open>
  \<open>print\<close> appends to the console; the console is kept as the list of what was printed,
  oldest first.
\<close>

datatype printed = PrintInt int | PrintStr string

record cpu =
  ram :: "int list"
  pc :: int
  ir :: int
  reg :: "int list"
  working :: bool
  fl :: int
  console :: "printed list"

text \<open>
  \<open>self.sp\<close> is assigned 7 in the constructor and never again; it is the index of the
  register that holds the address of the top of the stack.
\<close>

definition sp :: int where
  "sp = 7"

text \<open>The constructor: 256 memory cells, 8 registers, register 7 set to 0xF4, flags 0.\<close>

definition init :: cpu where
  "init = \<lparr> ram = replicate 256 0, pc = 0, ir = 0,
            reg = (replicate 8 0)[7 := 244],
            working = False, fl = 0, console = [] \<rparr>"

type_synonym outcome = "(error \<times> cpu) + cpu"

text \<open>
  \<open>attempt s r k\<close>: evaluate a subscript whose result is \<open>r\<close> while the object is \<open>s\<close>;
  when it raises, the method ends there with the object \<open>s\<close>.
\<close>

definition attempt :: "cpu \<Rightarrow> error + 'a \<Rightarrow> ('a \<Rightarrow> outcome) \<Rightarrow> outcome" where
  "attempt s r k = (case r of Inl e \<Rightarrow> Inl (e, s) | Inr x \<Rightarrow> k x)"

subsection \<open>Accessors\<close>

definition ram_read :: "cpu \<Rightarrow> int \<Rightarrow> error + int" where
  "ram_read s address = py_get (ram s) address"

definition ram_write :: "cpu \<Rightarrow> int \<Rightarrow> int \<Rightarrow> outcome" where
  "ram_write s address data =
     attempt s (py_set (ram s) address data) (\<lambda>m. Inr (s\<lparr>ram := m\<rparr>))"

definition reg_read :: "cpu \<Rightarrow> int \<Rightarrow> error + int" where
  "reg_read s address = py_get (reg s) address"

definition reg_write :: "cpu \<Rightarrow> int \<Rightarrow> int \<Rightarrow> outcome" where
  "reg_write s address data =
     attempt s (py_set (reg s) address data) (\<lambda>r. Inr (s\<lparr>reg := r\<rparr>))"

subsection \<open>The ALU\<close>

text \<open>
  \<open>alu\<close> takes the operation as a string and two register indices. The augmented
  assignment \<open>reg[a] += reg[b]\<close> reads \<open>reg[a]\<close>, reads \<open>reg[b]\<close>, then stores the sum at
  \<open>a\<close>; nothing masks the result. The two comparisons of CMP each read both registers.
\<close>

definition alu :: "cpu \<Rightarrow> string \<Rightarrow> int \<Rightarrow> int \<Rightarrow> outcome" where
  "alu s op reg_a reg_b =
     (if op = ''ADD'' then
        attempt s (py_get (reg s) reg_a) (\<lambda>x.
        attempt s (py_get (reg s) reg_b) (\<lambda>y.
        attempt s (py_set (reg s) reg_a (x + y)) (\<lambda>r.
        Inr (s\<lparr>reg := r\<rparr>))))
      else if op = ''MUL'' then
        attempt s (py_get (reg s) reg_a) (\<lambda>x.
        attempt s (py_get (reg s) reg_b) (\<lambda>y.
        attempt s (py_set (reg s) reg_a (x * y)) (\<lambda>r.
        Inr (s\<lparr>reg := r\<rparr>))))
      else if op = ''CMP'' then
        attempt s (py_get (reg s) reg_a) (\<lambda>x.
        attempt s (py_get (reg s) reg_b) (\<lambda>y.
        if x > y then Inr (s\<lparr>fl := 2\<rparr>)
        else
          attempt s (py_get (reg s) reg_a) (\<lambda>x'.
          attempt s (py_get (reg s) reg_b) (\<lambda>y'.
          if x' < y' then Inr (s\<lparr>fl := 4\<rparr>)
          else Inr (s\<lparr>fl := 1\<rparr>)))))
      else Inl (Exception ''Unsupported ALU operation'', s))"

subsection \<open>Instruction handlers\<close>

definition CMP :: "cpu \<Rightarrow> outcome" where
  "CMP s =
     attempt s (ram_read s (pc s + 1)) (\<lambda>reg_a.
     attempt s (ram_read s (pc s + 2)) (\<lambda>reg_b.
     alu s ''CMP'' reg_a reg_b))"

definition JMP :: "cpu \<Rightarrow> outcome" where
  "JMP s =
     attempt s (ram_read s (pc s + 1)) (\<lambda>operand.
     attempt s (py_get (reg s) operand) (\<lambda>new_address.
     Inr (s\<lparr>pc := new_address\<rparr>)))"

text \<open>\<open>not self.fl >> 1\<close> is \<open>not (self.fl >> 1)\<close>: true exactly when the shifted value is 0.\<close>

definition JEQ :: "cpu \<Rightarrow> outcome" where
  "JEQ s = (if drop_bit 1 (fl s) = 0 then JMP s else Inr (s\<lparr>pc := pc s + 2\<rparr>))"

definition JNE :: "cpu \<Rightarrow> outcome" where
  "JNE s = (if drop_bit 1 (fl s) \<noteq> 0 then JMP s else Inr (s\<lparr>pc := pc s + 2\<rparr>))"

text \<open>
  CALL moves pc to the operand, decrements register 7, stores \<open>pc + 1\<close> (the address after
  the operand) at the cell register 7 now names, and only then reads the operand and the
  register it names.
\<close>

definition CALL :: "cpu \<Rightarrow> outcome" where
  "CALL s =
     (let s1 = s\<lparr>pc := pc s + 1\<rparr> in
      attempt s1 (py_get (reg s1) sp) (\<lambda>v.
      attempt s1 (py_set (reg s1) sp (v - 1)) (\<lambda>r.
      let s2 = s1\<lparr>reg := r\<rparr> in
      attempt s2 (py_get (reg s2) sp) (\<lambda>top.
      attempt s2 (py_set (ram s2) top (pc s2 + 1)) (\<lambda>m.
      let s3 = s2\<lparr>ram := m\<rparr> in
      attempt s3 (ram_read s3 (pc s3)) (\<lambda>operand.
      attempt s3 (py_get (reg s3) operand) (\<lambda>target.
      Inr (s3\<lparr>pc := target\<rparr>))))))))"

definition RET :: "cpu \<Rightarrow> outcome" where
  "RET s =
     attempt s (py_get (reg s) sp) (\<lambda>top.
     attempt s (ram_read s top) (\<lambda>next_address.
     attempt s (py_get (reg s) sp) (\<lambda>v.
     attempt s (py_set (reg s) sp (v + 1)) (\<lambda>r.
     Inr (s\<lparr>reg := r, pc := next_address\<rparr>)))))"

definition PUSH :: "cpu \<Rightarrow> outcome" where
  "PUSH s =
     attempt s (py_get (reg s) sp) (\<lambda>v.
     attempt s (py_set (reg s) sp (v - 1)) (\<lambda>r.
     let s1 = s\<lparr>reg := r\<rparr> in
     attempt s1 (ram_read s1 (pc s1 + 1)) (\<lambda>address.
     attempt s1 (py_get (reg s1) address) (\<lambda>data.
     attempt s1 (py_get (reg s1) sp) (\<lambda>top.
     attempt s1 (py_set (ram s1) top data) (\<lambda>m.
     Inr (s1\<lparr>ram := m\<rparr>)))))))"

definition POP :: "cpu \<Rightarrow> outcome" where
  "POP s =
     attempt s (ram_read s (pc s + 1)) (\<lambda>copy_to.
     attempt s (py_get (reg s) sp) (\<lambda>top.
     attempt s (ram_read s top) (\<lambda>val.
     attempt s (py_set (reg s) copy_to val) (\<lambda>r.
     let s1 = s\<lparr>reg := r\<rparr> in
     attempt s1 (py_get (reg s1) sp) (\<lambda>v.
     attempt s1 (py_set (reg s1) sp (v + 1)) (\<lambda>r'.
     Inr (s1\<lparr>reg := r'\<rparr>)))))))"

definition LDI :: "cpu \<Rightarrow> outcome" where
  "LDI s =
     attempt s (ram_read s (pc s + 1)) (\<lambda>location.
     attempt s (ram_read s (pc s + 2)) (\<lambda>data.
     attempt s (py_set (reg s) location data) (\<lambda>r.
     Inr (s\<lparr>reg := r\<rparr>))))"

definition HLT :: "cpu \<Rightarrow> outcome" where
  "HLT s = Inr (s\<lparr>working := False\<rparr>)"

definition PRN :: "cpu \<Rightarrow> outcome" where
  "PRN s =
     attempt s (ram_read s (pc s + 1)) (\<lambda>location.
     attempt s (py_get (reg s) location) (\<lambda>data.
     Inr (s\<lparr>console := console s @ [PrintInt data]\<rparr>)))"

definition MUL :: "cpu \<Rightarrow> outcome" where
  "MUL s =
     attempt s (ram_read s (pc s + 1)) (\<lambda>location_a.
     attempt s (ram_read s (pc s + 2)) (\<lambda>location_b.
     alu s ''MUL'' location_a location_b))"

definition ADD :: "cpu \<Rightarrow> outcome" where
  "ADD s =
     attempt s (ram_read s (pc s + 1)) (\<lambda>location_a.
     attempt s (ram_read s (pc s + 2)) (\<lambda>location_b.
     alu s ''ADD'' location_a location_b))"

subsection \<open>The dispatch table\<close>

text \<open>
  The keys are the thirteen opcodes, in the order of the source:
  0b10000010, 0b00000001, 0b01000111, 0b10100010, 0b10100000, 0b01000101, 0b01000110,
  0b01010000, 0b00010001, 0b10100111, 0b01010101, 0b01010110, 0b01010100.
\<close>

definition instruction_table :: "int \<Rightarrow> (cpu \<Rightarrow> outcome) option" where
  "instruction_table = map_of
     [(130, LDI), (1, HLT), (71, PRN), (162, MUL), (160, ADD), (69, PUSH), (70, POP),
      (80, CALL), (17, RET), (167, CMP), (85, JEQ), (86, JNE), (84, JMP)]"

subsection \<open>Formatting an integer with the format specification 08b\<close>

fun bin_digits :: "nat \<Rightarrow> string" where
  "bin_digits n =
     (if n < 2 then [if n = 0 then CHR ''0'' else CHR ''1'']
      else bin_digits (n div 2) @ [if n mod 2 = 0 then CHR ''0'' else CHR ''1''])"

definition zero_pad :: "nat \<Rightarrow> string \<Rightarrow> string" where
  "zero_pad w ds = replicate (w - length ds) CHR ''0'' @ ds"

text \<open>
  Width 8 with zero fill; the sign of a negative number comes first and counts towards
  the width.
\<close>

definition format_08b :: "int \<Rightarrow> string" where
  "format_08b i =
     (if i < 0 then CHR ''-'' # zero_pad 7 (bin_digits (nat (- i)))
      else zero_pad 8 (bin_digits (nat i)))"

subsection \<open>The execution loop\<close>

text \<open>
  One pass through the body of the \<open>while\<close> loop of \<open>run\<close>. \<open>self.ir >> 4 & 1\<close> is
  \<open>(self.ir >> 4) & 1\<close>; the loop reads \<open>self.ir\<close> again after the handler has returned.
\<close>

definition cycle :: "cpu \<Rightarrow> outcome" where
  "cycle s =
     attempt s (ram_read s (pc s)) (\<lambda>opcode.
     let s1 = s\<lparr>ir := opcode\<rparr> in
     case instruction_table (ir s1) of
       Some handler \<Rightarrow>
         (case handler s1 of
            Inl failure \<Rightarrow> Inl failure
          | Inr s2 \<Rightarrow>
              (let sets_pc = drop_bit 4 (ir s2) AND 1 in
               if sets_pc = 0
               then (let num_operands = drop_bit 6 (ir s2) in
                     Inr (s2\<lparr>pc := pc s2 + (num_operands + 1)\<rparr>))
               else Inr s2))
     | None \<Rightarrow> Inl (Exception (''Unsupported operation: '' @ format_08b (ir s1)), s1))"

text \<open>
  The loop itself, with fuel: \<open>None\<close> means that the loop was still running when the fuel
  ran out. It ends normally when \<open>working\<close> is false and abnormally when a cycle raises.
\<close>

fun run_loop :: "nat \<Rightarrow> cpu \<Rightarrow> outcome option" where
  "run_loop n s =
     (if \<not> working s then Some (Inr s)
      else (case n of
              0 \<Rightarrow> None
            | Suc m \<Rightarrow> (case cycle s of Inl failure \<Rightarrow> Some (Inl failure) | Inr s' \<Rightarrow> run_loop m s')))"

definition run :: "nat \<Rightarrow> cpu \<Rightarrow> outcome option" where
  "run n s = run_loop n (s\<lparr>working := True\<rparr>)"

subsection \<open>Loading a program\<close>

text \<open>
  The part of \<open>load\<close> after the file has been read and parsed: \<open>program\<close> is the list of
  integers the lines of the file denote. The warning is printed when the program is longer
  than the memory, and the copy loop runs over \<open>range(len(program))\<close> whatever the check
  said. \<open>load_copy i\<close> is the loop from index \<open>i\<close> on, with \<open>rest\<close> the values not yet
  copied.
\<close>

fun load_copy :: "cpu \<Rightarrow> nat \<Rightarrow> int list \<Rightarrow> outcome" where
  "load_copy s i [] = Inr s"
| "load_copy s i (v # rest) =
     attempt s (py_set (ram s) (int i) v) (\<lambda>m. load_copy (s\<lparr>ram := m\<rparr>) (Suc i) rest)"

definition load :: "cpu \<Rightarrow> int list \<Rightarrow> outcome" where
  "load s program =
     (let s1 = (if length program > length (ram s)
                then s\<lparr>console := console s @
                       [PrintStr ''The program is too large. Please upgrade the RAM.'']\<rparr>
                else s)
      in load_copy s1 0 program)"

subsection \<open>Reading a binary numeral back\<close>

text \<open>
  The value a string of binary digits denotes, most significant digit first. It is used
  only to say what \<open>format_08b\<close> prints.
\<close>

definition bin_value :: "string \<Rightarrow> nat" where
  "bin_value ds = foldl (\<lambda>acc c. 2 * acc + (if c = CHR ''1'' then 1 else 0)) 0 ds"

subsection \<open>Concrete processor states\<close>

text \<open>A processor about to execute \<open>CMP R0, R1\<close> with 5 and 3 in the two registers.\<close>

definition cmp_example :: cpu where
  "cmp_example =
     init\<lparr>ram := [167, 0, 1, 85, 2] @ replicate 251 0, reg := [5, 3, 9, 0, 0, 0, 0, 244]\<rparr>"

text \<open>After \<open>CMP R0, R1\<close> on equal registers, about to execute \<open>JEQ R2\<close>.\<close>

definition jeq_example :: cpu where
  "jeq_example =
     init\<lparr>ram := [167, 0, 1, 85, 2] @ replicate 251 0, reg := [4, 4, 9, 0, 0, 0, 0, 244],
          pc := 3, ir := 85, fl := 1\<rparr>"

text \<open>After \<open>CMP R0, R1\<close> with 5 and 3, about to execute \<open>JNE R2\<close>.\<close>

definition jne_example :: cpu where
  "jne_example =
     init\<lparr>ram := [167, 0, 1, 86, 2] @ replicate 251 0, reg := [5, 3, 9, 0, 0, 0, 0, 244],
          pc := 3, ir := 86, fl := 2\<rparr>"

text \<open>A freshly constructed processor whose program starts with \<open>JEQ R7\<close>.\<close>

definition fresh_jeq :: cpu where
  "fresh_jeq = init\<lparr>ram := [85, 7] @ replicate 254 0\<rparr>"

text \<open>The program \<open>LDI R0, 8; JMP R0\<close>, before its first and before its second instruction.\<close>

definition ldi_example :: cpu where
  "ldi_example =
     init\<lparr>ram := [130, 0, 8, 84, 0, 3] @ replicate 250 0, reg := [0, 0, 0, 0, 0, 0, 0, 244]\<rparr>"

definition jmp_example :: cpu where
  "jmp_example =
     init\<lparr>ram := [130, 0, 8, 84, 0, 3] @ replicate 250 0, pc := 3,
          reg := [8, 0, 0, 0, 0, 0, 0, 244]\<rparr>"

text \<open>A processor whose pc is at the byte 0b00000011, which is no opcode.\<close>

definition bad_opcode_example :: cpu where
  "bad_opcode_example =
     init\<lparr>ram := [130, 0, 8, 3] @ replicate 252 0, pc := 3, reg := [8, 0, 0, 0, 0, 0, 0, 244]\<rparr>"

text \<open>
  The program \<open>CALL R1\<close> at address 0 with the subroutine, a single \<open>RET\<close>, at address 6.
\<close>

definition call_example :: cpu where
  "call_example =
     init\<lparr>ram := [80, 1, 1, 0, 0, 0, 17] @ replicate 249 0, reg := [0, 6, 0, 0, 0, 0, 0, 244]\<rparr>"

text \<open>The program \<open>PUSH R0; POP R0\<close> with 5 in register 0.\<close>

definition push_example :: cpu where
  "push_example =
     init\<lparr>ram := [69, 0, 70, 0] @ replicate 252 0, reg := [5, 0, 0, 0, 0, 0, 0, 244]\<rparr>"

text \<open>A processor about to execute \<open>ADD R0, R1\<close> with 200 and 100 in the two registers.\<close>

definition add_example :: cpu where
  "add_example =
     init\<lparr>ram := [160, 0, 1] @ replicate 253 0, reg := [200, 100, 0, 0, 0, 0, 0, 244]\<rparr>"

text \<open>
  The program \<open>PUSH R0; CALL R1\<close> on a processor whose stack pointer has come down to 0,
  and \<open>PUSH R0\<close> on one whose stack pointer has come down to -256.
\<close>

definition push_zero :: cpu where
  "push_zero = init\<lparr>ram := [69, 0, 80, 1] @ replicate 252 0, reg := [5, 9, 0, 0, 0, 0, 0, 0]\<rparr>"

definition deep_stack :: cpu where
  "deep_stack = init\<lparr>ram := [69, 0] @ replicate 254 0, reg := [5, 0, 0, 0, 0, 0, 0, - 256]\<rparr>"

section \<open>Properties\<close>

subsection \<open>Basic facts\<close>

declare bin_digits.simps [simp del]
declare run_loop.simps [simp del]

lemma attempt_Inr [simp]: "attempt s (Inr x) k = k x"
  by (simp add: attempt_def)

lemma attempt_Inl [simp]: "attempt s (Inl e) k = Inl (e, s)"
  by (simp add: attempt_def)

lemma attempt_eq_Inr: "attempt s r k = Inr s' \<longleftrightarrow> (\<exists>x. r = Inr x \<and> k x = Inr s')"
  by (cases r) simp_all

lemma py_index_bound: "py_index n i = Inr k \<Longrightarrow> k < n"
  by (auto simp: py_index_def split: if_splits)

lemma py_get_index:
  "py_get xs i = Inr v \<Longrightarrow> \<exists>k. py_index (length xs) i = Inr k \<and> k < length xs \<and> xs ! k = v"
  by (auto simp: py_get_def dest: py_index_bound split: sum.splits)

lemma py_set_index:
  "py_set xs i w = Inr ys \<Longrightarrow> \<exists>k. py_index (length xs) i = Inr k \<and> k < length xs \<and> ys = xs[k := w]"
  by (auto simp: py_set_def dest: py_index_bound split: sum.splits)

lemma py_set_after_get: "py_get xs i = Inr v \<Longrightarrow> \<exists>ys. py_set xs i w = Inr ys"
  by (auto simp: py_get_def py_set_def split: sum.splits)

text \<open>What was stored at an index is what is read there.\<close>

lemma py_get_set_same:
  assumes "py_set xs i v = Inr ys"
  shows "py_get ys i = Inr v"
proof -
  from py_set_index [OF assms] obtain k where
    "py_index (length xs) i = Inr k" "k < length xs" "ys = xs[k := v]"
    by blast
  then show ?thesis
    by (simp add: py_get_def)
qed

text \<open>A store leaves the cells at other positions as they were.\<close>

lemma py_get_set_other:
  assumes "py_set xs i v = Inr ys" and "py_index (length xs) j \<noteq> py_index (length xs) i"
  shows "py_get ys j = py_get xs j"
proof -
  from py_set_index [OF assms(1)] obtain k where
    k: "py_index (length xs) i = Inr k" "ys = xs[k := v]"
    by blast
  with assms(2) show ?thesis
    by (cases "py_index (length xs) j") (auto simp: py_get_def)
qed

text \<open>
  A sanity check of the embedding: the program \<open>LDI R0,8; LDI R1,9; MUL R0,R1; PRN R0; HLT\<close>
  prints 72 and stops with pc after the HLT.
\<close>

lemma mult_program_prints_72:
  "(case load init [130, 0, 8, 130, 1, 9, 162, 0, 1, 71, 0, 1] of
      Inl _ \<Rightarrow> None
    | Inr s \<Rightarrow> map_option (map_sum fst (\<lambda>s'. (console s', working s', pc s'))) (run 5 s))
   = Some (Inr ([PrintInt 72], False, 12))"
  by code_simp

subsection \<open>The advance of the program counter\<close>

lemma alu_ir: "alu s op a b = Inr s' \<Longrightarrow> ir s' = ir s"
  by (auto simp: alu_def attempt_eq_Inr split: if_splits)

lemma JMP_ir: "JMP s = Inr s' \<Longrightarrow> ir s' = ir s"
  by (auto simp: JMP_def attempt_eq_Inr)

lemma CALL_ir: "CALL s = Inr s' \<Longrightarrow> ir s' = ir s"
  by (auto simp: CALL_def Let_def attempt_eq_Inr)

text \<open>No handler of the dispatch table assigns the instruction register.\<close>

lemma handler_ir:
  assumes "instruction_table opcode = Some handler" and "handler s = Inr s'"
  shows "ir s' = ir s"
proof -
  from assms(1)
  have "handler \<in> {LDI, HLT, PRN, MUL, ADD, PUSH, POP, CALL, RET, CMP, JEQ, JNE, JMP}"
    by (auto simp: instruction_table_def split: if_splits)
  with assms(2) show ?thesis
    by (auto simp: LDI_def HLT_def PRN_def MUL_def ADD_def PUSH_def POP_def RET_def CMP_def
        JEQ_def JNE_def Let_def attempt_eq_Inr dest: alu_ir JMP_ir CALL_ir split: if_splits)
qed

text \<open>
  The operand count (bits 6 and 7) and the sets-pc bit (bit 4) of the thirteen opcodes, in
  the order of the dispatch table.
\<close>

lemma opcode_bits:
  "map (\<lambda>i::int. (drop_bit 6 i, drop_bit 4 i AND 1))
       [130, 1, 71, 162, 160, 69, 70, 80, 17, 167, 85, 86, 84]
     = [(2, 0), (0, 0), (1, 0), (2, 0), (2, 0), (1, 0), (1, 0),
        (1, 1), (0, 1), (2, 0), (1, 1), (1, 1), (1, 1)]"
  by (simp add: drop_bit_eq_div and_one_eq)

text \<open>
  Claim C1. In a cycle that fetches a recognised opcode and whose handler returns in the
  state \<open>s'\<close>, the loop ends the cycle in \<open>s'\<close> with \<open>(opcode >> 6) + 1\<close> added to pc when
  bit 4 of the opcode is 0, and in \<open>s'\<close> itself, pc as the handler left it, when bit 4 is 1.
\<close>

theorem cycle_pc_advance:
  assumes "ram_read s (pc s) = Inr opcode"
    and "instruction_table opcode = Some handler"
    and "handler (s\<lparr>ir := opcode\<rparr>) = Inr s'"
  shows "cycle s =
           Inr (if drop_bit 4 opcode AND 1 = 0
                then s'\<lparr>pc := pc s' + (drop_bit 6 opcode + 1)\<rparr> else s')"
proof -
  have "ir s' = opcode"
    using handler_ir [OF assms(2,3)] by simp
  with assms show ?thesis
    by (simp add: cycle_def Let_def)
qed

theorem cycle_pc_advance_witness:
  "ram_read ldi_example (pc ldi_example) = Inr 130 \<and> instruction_table 130 = Some LDI
   \<and> LDI (ldi_example\<lparr>ir := 130\<rparr>) = Inr (ldi_example\<lparr>ir := 130, reg := [8, 0, 0, 0, 0, 0, 0, 244]\<rparr>)
   \<and> cycle ldi_example = Inr (ldi_example\<lparr>ir := 130, reg := [8, 0, 0, 0, 0, 0, 0, 244], pc := 3\<rparr>)
   \<and> ram_read jmp_example (pc jmp_example) = Inr 84 \<and> instruction_table 84 = Some JMP
   \<and> JMP (jmp_example\<lparr>ir := 84\<rparr>) = Inr (jmp_example\<lparr>ir := 84, pc := 8\<rparr>)
   \<and> cycle jmp_example = Inr (jmp_example\<lparr>ir := 84, pc := 8\<rparr>)"
proof -
  have l: "ram_read ldi_example (pc ldi_example) = Inr 130" "instruction_table 130 = Some LDI"
    "LDI (ldi_example\<lparr>ir := 130\<rparr>) = Inr (ldi_example\<lparr>ir := 130, reg := [8, 0, 0, 0, 0, 0, 0, 244]\<rparr>)"
    by (simp_all add: ldi_example_def init_def instruction_table_def LDI_def ram_read_def
        py_get_def py_set_def py_index_def)
  have j: "ram_read jmp_example (pc jmp_example) = Inr 84" "instruction_table 84 = Some JMP"
    "JMP (jmp_example\<lparr>ir := 84\<rparr>) = Inr (jmp_example\<lparr>ir := 84, pc := 8\<rparr>)"
    by (simp_all add: jmp_example_def init_def instruction_table_def JMP_def ram_read_def
        py_get_def py_index_def)
  have p: "pc ldi_example = 0"
    by (simp add: ldi_example_def init_def)
  have b: "drop_bit 4 (130::int) AND 1 = 0" "drop_bit 6 (130::int) = 2" "drop_bit 4 (84::int) AND 1 = 1"
    by (simp_all add: drop_bit_eq_div and_one_eq)
  from cycle_pc_advance [OF l] cycle_pc_advance [OF j] l j p b show ?thesis
    by simp
qed

subsection \<open>Comparison and conditional jumps\<close>

text \<open>
  Claim C2. When CMP reads the operands \<open>a\<close> and \<open>b\<close> and the registers they name hold
  \<open>x\<close> and \<open>y\<close>, the flags become 0b010 if \<open>x > y\<close>, 0b100 if \<open>x < y\<close> and 0b001 otherwise,
  and nothing but the flags differs from the state before.
\<close>

theorem CMP_sets_flags:
  assumes "ram_read s (pc s + 1) = Inr a" and "ram_read s (pc s + 2) = Inr b"
    and "py_get (reg s) a = Inr x" and "py_get (reg s) b = Inr y"
  shows "CMP s = Inr (s\<lparr>fl := (if x > y then 2 else if x < y then 4 else 1)\<rparr>)"
  using assms by (simp add: CMP_def alu_def)

theorem CMP_sets_flags_witness:
  "ram_read cmp_example (pc cmp_example + 1) = Inr 0
   \<and> ram_read cmp_example (pc cmp_example + 2) = Inr 1
   \<and> py_get (reg cmp_example) 0 = Inr 5 \<and> py_get (reg cmp_example) 1 = Inr 3
   \<and> CMP cmp_example = Inr (cmp_example\<lparr>fl := 2\<rparr>)"
  using CMP_sets_flags [of cmp_example 0 1 5 3]
  by (simp add: cmp_example_def init_def ram_read_def py_get_def py_index_def)

lemma CMP_flag_values: "CMP s0 = Inr s1 \<Longrightarrow> fl s1 = 1 \<or> fl s1 = 2 \<or> fl s1 = 4"
  by (auto simp: CMP_def alu_def attempt_eq_Inr split: if_splits)

text \<open>
  Claim C3. JEQ jumps to the register its operand names when \<open>fl >> 1\<close> is zero and adds 2
  to pc otherwise; JNE jumps when \<open>fl >> 1\<close> is not zero and adds 2 to pc otherwise. On
  flags that a CMP has left, \<open>fl >> 1\<close> is zero exactly for 0b001 and not zero exactly for
  0b010 and 0b100.
\<close>

theorem JEQ_JNE_branch:
  "(drop_bit 1 (fl s) = 0 \<longrightarrow> ram_read s (pc s + 1) = Inr a \<longrightarrow> py_get (reg s) a = Inr t
      \<longrightarrow> JEQ s = Inr (s\<lparr>pc := t\<rparr>))
   \<and> (drop_bit 1 (fl s) \<noteq> 0 \<longrightarrow> JEQ s = Inr (s\<lparr>pc := pc s + 2\<rparr>))
   \<and> (drop_bit 1 (fl s) \<noteq> 0 \<longrightarrow> ram_read s (pc s + 1) = Inr a \<longrightarrow> py_get (reg s) a = Inr t
      \<longrightarrow> JNE s = Inr (s\<lparr>pc := t\<rparr>))
   \<and> (drop_bit 1 (fl s) = 0 \<longrightarrow> JNE s = Inr (s\<lparr>pc := pc s + 2\<rparr>))
   \<and> (CMP s0 = Inr s1 \<longrightarrow> fl s = fl s1
      \<longrightarrow> (drop_bit 1 (fl s) = 0 \<longleftrightarrow> fl s = 1)
        \<and> (drop_bit 1 (fl s) \<noteq> 0 \<longleftrightarrow> fl s = 2 \<or> fl s = 4))"
proof -
  have jeq_taken: "JEQ s = Inr (s\<lparr>pc := t\<rparr>)"
    if "drop_bit 1 (fl s) = 0" "ram_read s (pc s + 1) = Inr a" "py_get (reg s) a = Inr t"
    using that by (simp add: JEQ_def JMP_def)
  have jeq_skip: "JEQ s = Inr (s\<lparr>pc := pc s + 2\<rparr>)" if "drop_bit 1 (fl s) \<noteq> 0"
    using that by (simp add: JEQ_def)
  have jne_taken: "JNE s = Inr (s\<lparr>pc := t\<rparr>)"
    if "drop_bit 1 (fl s) \<noteq> 0" "ram_read s (pc s + 1) = Inr a" "py_get (reg s) a = Inr t"
    using that by (simp add: JNE_def JMP_def)
  have jne_skip: "JNE s = Inr (s\<lparr>pc := pc s + 2\<rparr>)" if "drop_bit 1 (fl s) = 0"
    using that by (simp add: JNE_def)
  have after_cmp: "(drop_bit 1 (fl s) = 0 \<longleftrightarrow> fl s = 1)
      \<and> (drop_bit 1 (fl s) \<noteq> 0 \<longleftrightarrow> fl s = 2 \<or> fl s = 4)"
    if "CMP s0 = Inr s1" "fl s = fl s1"
    using CMP_flag_values [OF that(1)] that(2) by (auto simp: drop_bit_eq_div)
  from jeq_taken jeq_skip jne_taken jne_skip after_cmp show ?thesis
    by blast
qed

theorem JEQ_JNE_branch_witness:
  "JEQ jeq_example = Inr (jeq_example\<lparr>pc := 9\<rparr>)
   \<and> JNE jeq_example = Inr (jeq_example\<lparr>pc := 5\<rparr>)
   \<and> JNE jne_example = Inr (jne_example\<lparr>pc := 9\<rparr>)
   \<and> JEQ jne_example = Inr (jne_example\<lparr>pc := 5\<rparr>)
   \<and> CMP (jeq_example\<lparr>pc := 0, fl := 0\<rparr>) = Inr (jeq_example\<lparr>pc := 0\<rparr>)
   \<and> drop_bit 1 (fl jeq_example) = 0 \<and> fl jeq_example = 1"
proof -
  have f: "fl jeq_example = 1" "pc jeq_example = 3" "fl jne_example = 2" "pc jne_example = 3"
    by (simp_all add: jeq_example_def jne_example_def)
  have r: "ram_read jeq_example (pc jeq_example + 1) = Inr 2" "py_get (reg jeq_example) 2 = Inr 9"
      "ram_read jne_example (pc jne_example + 1) = Inr 2" "py_get (reg jne_example) 2 = Inr 9"
    by (simp_all add: jeq_example_def jne_example_def init_def ram_read_def py_get_def py_index_def)
  have c: "CMP (jeq_example\<lparr>pc := 0, fl := 0\<rparr>) = Inr (jeq_example\<lparr>pc := 0\<rparr>)"
    by (simp add: jeq_example_def init_def CMP_def alu_def ram_read_def py_get_def py_index_def)
  show ?thesis
    using JEQ_JNE_branch [of jeq_example 2 9 "jeq_example\<lparr>pc := 0, fl := 0\<rparr>" "jeq_example\<lparr>pc := 0\<rparr>"]
      JEQ_JNE_branch [of jne_example 2 9 "jeq_example\<lparr>pc := 0, fl := 0\<rparr>" "jeq_example\<lparr>pc := 0\<rparr>"]
      f r c by simp
qed

text \<open>
  Claim C9. The constructor leaves the flags at 0, and with flags 0 JEQ takes the jump
  while JNE does not and adds 2 to pc.
\<close>

theorem JEQ_on_initial_flags:
  "fl init = 0
   \<and> (fl s = 0 \<longrightarrow> ram_read s (pc s + 1) = Inr a \<longrightarrow> py_get (reg s) a = Inr t
        \<longrightarrow> JEQ s = Inr (s\<lparr>pc := t\<rparr>))
   \<and> (fl s = 0 \<longrightarrow> JNE s = Inr (s\<lparr>pc := pc s + 2\<rparr>))"
  by (simp add: init_def JEQ_def JNE_def JMP_def)

theorem JEQ_on_initial_flags_witness:
  "fl fresh_jeq = 0 \<and> ram_read fresh_jeq (pc fresh_jeq + 1) = Inr 7
   \<and> py_get (reg fresh_jeq) 7 = Inr 244
   \<and> JEQ fresh_jeq = Inr (fresh_jeq\<lparr>pc := 244\<rparr>)
   \<and> JNE fresh_jeq = Inr (fresh_jeq\<lparr>pc := pc fresh_jeq + 2\<rparr>)"
  using JEQ_on_initial_flags [of fresh_jeq 7 244]
  by (simp add: fresh_jeq_def init_def ram_read_def py_get_def py_index_def)

subsection \<open>Subroutine call and return\<close>

text \<open>
  Claim C4. With \<open>v\<close> in register 7, CALL decrements register 7 to \<open>v - 1\<close>, stores
  \<open>pc + 2\<close> at the memory cell \<open>v - 1\<close> and sets pc to the register named by the operand;
  operand and register are read after the store, and they are those of the state before
  the CALL unless the stack cell is the operand cell or the operand names register 7. A RET
  on any later state whose register 7 is \<open>v - 1\<close> again and whose cell \<open>v - 1\<close> still holds
  the return address sets pc to \<open>pc + 2\<close> and register 7 to \<open>v\<close>; so does the RET that
  follows the CALL at once.
\<close>

theorem CALL_then_RET:
  assumes "py_get (reg s) sp = Inr v"
    and "py_set (reg s) sp (v - 1) = Inr r"
    and "py_set (ram s) (v - 1) (pc s + 2) = Inr m"
    and "py_get m (pc s + 1) = Inr a"
    and "py_get r a = Inr t"
  shows "CALL s = Inr (s\<lparr>pc := t, reg := r, ram := m\<rparr>)
       \<and> py_get r sp = Inr (v - 1)
       \<and> py_get m (v - 1) = Inr (pc s + 2)
       \<and> (py_index (length (ram s)) (pc s + 1) \<noteq> py_index (length (ram s)) (v - 1)
            \<longrightarrow> ram_read s (pc s + 1) = Inr a)
       \<and> (py_index (length (reg s)) a \<noteq> py_index (length (reg s)) sp
            \<longrightarrow> py_get (reg s) a = Inr t)
       \<and> (\<exists>r'. py_set r sp v = Inr r'
            \<and> RET (s\<lparr>pc := t, reg := r, ram := m\<rparr>)
                = Inr (s\<lparr>pc := pc s + 2, reg := r', ram := m\<rparr>)
            \<and> py_get r' sp = py_get (reg s) sp)
       \<and> (\<forall>s2. py_get (reg s2) sp = Inr (v - 1) \<and> ram_read s2 (v - 1) = Inr (pc s + 2)
            \<longrightarrow> (\<exists>r2. py_set (reg s2) sp v = Inr r2
                  \<and> RET s2 = Inr (s2\<lparr>reg := r2, pc := pc s + 2\<rparr>)
                  \<and> py_get r2 sp = Inr v))"
proof -
  have top: "py_get r sp = Inr (v - 1)"
    using assms(2) by (rule py_get_set_same)
  have cell: "py_get m (v - 1) = Inr (pc s + 2)"
    using assms(3) by (rule py_get_set_same)
  have push: "py_set (ram s) (v - 1) (2 + pc s) = Inr m"
    using assms(3) by (simp add: add.commute)
  have call: "CALL s = Inr (s\<lparr>pc := t, reg := r, ram := m\<rparr>)"
    using assms(1,2,4,5) top push by (simp add: CALL_def Let_def ram_read_def)
  have operand: "ram_read s (pc s + 1) = Inr a"
    if "py_index (length (ram s)) (pc s + 1) \<noteq> py_index (length (ram s)) (v - 1)"
    using py_get_set_other [OF assms(3) that] assms(4) by (simp add: ram_read_def)
  have target: "py_get (reg s) a = Inr t"
    if "py_index (length (reg s)) a \<noteq> py_index (length (reg s)) sp"
    using py_get_set_other [OF assms(2) that] assms(5) by simp
  have ret: "\<exists>r2. py_set (reg s2) sp v = Inr r2
                  \<and> RET s2 = Inr (s2\<lparr>reg := r2, pc := pc s + 2\<rparr>)
                  \<and> py_get r2 sp = Inr v"
    if "py_get (reg s2) sp = Inr (v - 1)" "ram_read s2 (v - 1) = Inr (pc s + 2)" for s2
  proof -
    from py_set_after_get [OF that(1)] obtain r2 where r2: "py_set (reg s2) sp v = Inr r2"
      by blast
    then have "py_get r2 sp = Inr v"
      by (rule py_get_set_same)
    moreover from that r2 have "RET s2 = Inr (s2\<lparr>reg := r2, pc := pc s + 2\<rparr>)"
      by (simp add: RET_def)
    ultimately show ?thesis using r2 by blast
  qed
  from ret [of "s\<lparr>pc := t, reg := r, ram := m\<rparr>"] top cell
  have at_once: "\<exists>r'. py_set r sp v = Inr r'
            \<and> RET (s\<lparr>pc := t, reg := r, ram := m\<rparr>)
                = Inr (s\<lparr>pc := pc s + 2, reg := r', ram := m\<rparr>)
            \<and> py_get r' sp = py_get (reg s) sp"
    using assms(1) by (auto simp: ram_read_def)
  from call top cell operand target at_once ret show ?thesis
    by blast
qed

theorem CALL_then_RET_witness:
  "py_get (reg call_example) sp = Inr 244
   \<and> py_set (reg call_example) sp (244 - 1) = Inr [0, 6, 0, 0, 0, 0, 0, 243]
   \<and> py_set (ram call_example) (244 - 1) (pc call_example + 2) = Inr ((ram call_example)[243 := 2])
   \<and> py_get ((ram call_example)[243 := 2]) (pc call_example + 1) = Inr 1
   \<and> py_get [0, 6, 0, 0, 0, 0, 0, 243] 1 = Inr (6::int)
   \<and> CALL call_example =
       Inr (call_example\<lparr>pc := 6, reg := [0, 6, 0, 0, 0, 0, 0, 243],
                         ram := (ram call_example)[243 := 2]\<rparr>)
   \<and> RET (call_example\<lparr>pc := 6, reg := [0, 6, 0, 0, 0, 0, 0, 243],
                        ram := (ram call_example)[243 := 2]\<rparr>)
       = Inr (call_example\<lparr>pc := 2, reg := [0, 6, 0, 0, 0, 0, 0, 244],
                            ram := (ram call_example)[243 := 2]\<rparr>)"
proof -
  have g: "py_get (reg call_example) sp = Inr 244" "pc call_example = 0"
    and r: "py_set (reg call_example) sp (244 - 1) = Inr [0, 6, 0, 0, 0, 0, 0, 243]"
    and m: "py_set (ram call_example) (244 - 1) (pc call_example + 2)
              = Inr ((ram call_example)[243 := 2])"
    and a: "py_get ((ram call_example)[243 := 2]) (pc call_example + 1) = Inr 1"
    and t: "py_get [0, 6, 0, 0, 0, 0, 0, 243] 1 = Inr (6::int)"
    and r': "py_set [0, 6, 0, 0, 0, 0, 0, 243] sp 244 = Inr [0, 6, 0, 0, 0, 0, 0, 244::int]"
    by (simp_all add: call_example_def init_def sp_def py_get_def py_set_def py_index_def)
  from CALL_then_RET [OF g(1) r m a t] g r m a t r' show ?thesis
    by auto
qed

subsection \<open>The stack\<close>

text \<open>What a PUSH that returns has done, in terms of list positions.\<close>

lemma PUSH_result:
  assumes "PUSH s = Inr s1"
  shows "\<exists>v k7 a ka kt.
           py_index (length (reg s)) sp = Inr k7 \<and> k7 < length (reg s) \<and> reg s ! k7 = v
         \<and> ram_read s (pc s + 1) = Inr a
         \<and> py_index (length (reg s)) a = Inr ka \<and> ka < length (reg s)
         \<and> py_index (length (ram s)) (v - 1) = Inr kt \<and> kt < length (ram s)
         \<and> s1 = s\<lparr>reg := (reg s)[k7 := v - 1],
                   ram := (ram s)[kt := (reg s)[k7 := v - 1] ! ka]\<rparr>"
proof -
  from assms obtain v r a d top m where
    v: "py_get (reg s) sp = Inr v" and r: "py_set (reg s) sp (v - 1) = Inr r"
    and a: "ram_read s (pc s + 1) = Inr a" and d: "py_get r a = Inr d"
    and top: "py_get r sp = Inr top" and m: "py_set (ram s) top d = Inr m"
    and s1: "s1 = s\<lparr>reg := r, ram := m\<rparr>"
    by (auto simp: PUSH_def Let_def attempt_eq_Inr ram_read_def)
  from py_get_index [OF v] obtain k7 where
    k7: "py_index (length (reg s)) sp = Inr k7" "k7 < length (reg s)" "reg s ! k7 = v"
    by blast
  from r k7 have r_eq: "r = (reg s)[k7 := v - 1]"
    by (simp add: py_set_def)
  from top py_get_set_same [OF r] have top_eq: "top = v - 1"
    by simp
  from py_get_index [OF d] r_eq obtain ka where
    ka: "py_index (length (reg s)) a = Inr ka" "ka < length (reg s)"
      "d = (reg s)[k7 := v - 1] ! ka"
    by auto
  from py_set_index [OF m] top_eq obtain kt where
    kt: "py_index (length (ram s)) (v - 1) = Inr kt" "kt < length (ram s)" "m = (ram s)[kt := d]"
    by auto
  from k7 a ka kt r_eq s1 show ?thesis
    by blast
qed

text \<open>
  Claim C5. Let PUSH with operand \<open>r\<close> return in \<open>s1\<close>, and let POP run with operand \<open>r\<close> on
  a state \<open>s2\<close> that has the memory and the registers of \<open>s1\<close> (the loop has moved pc in
  between). Then POP returns, and its registers are those from before the PUSH: register
  \<open>r\<close> and the stack pointer in register 7 hold their values from before the PUSH.
\<close>

theorem PUSH_then_POP:
  assumes "PUSH s = Inr s1"
    and "ram_read s (pc s + 1) = Inr r"
    and "ram s2 = ram s1" and "reg s2 = reg s1"
    and "ram_read s2 (pc s2 + 1) = Inr r"
  shows "POP s2 = Inr (s2\<lparr>reg := reg s\<rparr>)
       \<and> (\<exists>x v. py_get (reg s) r = Inr x \<and> py_get (reg s) sp = Inr v)"
proof -
  from PUSH_result [OF assms(1)] assms(2) obtain v k7 ka kt where
    k7: "py_index (length (reg s)) sp = Inr k7" "k7 < length (reg s)" "reg s ! k7 = v"
    and ka: "py_index (length (reg s)) r = Inr ka" "ka < length (reg s)"
    and kt: "py_index (length (ram s)) (v - 1) = Inr kt" "kt < length (ram s)"
    and s1: "s1 = s\<lparr>reg := (reg s)[k7 := v - 1],
                     ram := (ram s)[kt := (reg s)[k7 := v - 1] ! ka]\<rparr>"
    by auto
  let ?d = "(reg s)[k7 := v - 1] ! ka"
  have regs: "reg s2 = (reg s)[k7 := v - 1]" and mem: "ram s2 = (ram s)[kt := ?d]"
    using assms(3,4) s1 by simp_all
  have same: "(reg s)[k7 := v] = reg s"
    using list_update_id [of "reg s" k7] k7(3) by simp
  have restored: "(reg s)[k7 := v - 1, ka := ?d, k7 := v] = reg s"
  proof (cases "ka = k7")
    case True
    with same show ?thesis by simp
  next
    case False
    then have "(reg s)[k7 := v - 1, ka := ?d, k7 := v] = (reg s)[ka := reg s ! ka, k7 := v]"
      by (simp add: list_update_swap [of k7 ka])
    with same show ?thesis by simp
  qed
  have sp_after: "(reg s)[k7 := v - 1, ka := ?d] ! k7 = v - 1"
    using k7 ka by (cases "ka = k7") simp_all
  have pop: "POP s2 = Inr (s2\<lparr>reg := reg s\<rparr>)"
    using assms(5) k7 ka kt regs mem restored sp_after
    by (simp add: POP_def Let_def ram_read_def py_get_def py_set_def)
  have "py_get (reg s) r = Inr (reg s ! ka)" "py_get (reg s) sp = Inr v"
    using k7 ka by (simp_all add: py_get_def)
  with pop show ?thesis
    by blast
qed

theorem PUSH_then_POP_witness:
  "PUSH push_example =
     Inr (push_example\<lparr>reg := [5, 0, 0, 0, 0, 0, 0, 243], ram := (ram push_example)[243 := 5]\<rparr>)
   \<and> ram_read push_example (pc push_example + 1) = Inr 0
   \<and> ram_read (push_example\<lparr>reg := [5, 0, 0, 0, 0, 0, 0, 243],
                             ram := (ram push_example)[243 := 5], pc := 2, ir := 70\<rparr>) (2 + 1) = Inr 0
   \<and> POP (push_example\<lparr>reg := [5, 0, 0, 0, 0, 0, 0, 243],
                        ram := (ram push_example)[243 := 5], pc := 2, ir := 70\<rparr>)
       = Inr (push_example\<lparr>reg := [5, 0, 0, 0, 0, 0, 0, 244],
                            ram := (ram push_example)[243 := 5], pc := 2, ir := 70\<rparr>)"
proof -
  let ?s1 = "push_example\<lparr>reg := [5, 0, 0, 0, 0, 0, 0, 243], ram := (ram push_example)[243 := 5]\<rparr>"
  let ?s2 = "?s1\<lparr>pc := 2, ir := 70\<rparr>"
  have p: "PUSH push_example = Inr ?s1"
    by (simp add: push_example_def init_def PUSH_def Let_def sp_def ram_read_def
        py_get_def py_set_def py_index_def)
  have o: "ram_read push_example (pc push_example + 1) = Inr 0"
    by (simp add: push_example_def init_def ram_read_def py_get_def py_index_def)
  have q: "ram ?s2 = ram ?s1" "reg ?s2 = reg ?s1"
    by simp_all
  have o2: "ram_read ?s2 (pc ?s2 + 1) = Inr 0"
    by (simp add: push_example_def init_def ram_read_def py_get_def py_index_def)
  have e: "reg push_example = [5, 0, 0, 0, 0, 0, 0, 244]"
    by (simp add: push_example_def)
  from PUSH_then_POP [OF p o q o2] p o o2 e show ?thesis
    by simp
qed

text \<open>
  Claim C10, as stated, fails: PUSH with -256 in register 7 decrements the register to -257
  and then raises IndexError at the store to memory.
\<close>

theorem PUSH_raises_counterexample:
  "PUSH deep_stack = Inl (IndexError, deep_stack\<lparr>reg := [5, 0, 0, 0, 0, 0, 0, - 257]\<rparr>)"
  by (simp add: deep_stack_def init_def PUSH_def Let_def sp_def ram_read_def py_get_def
      py_set_def py_index_def)

text \<open>
  Claim C10, amended. PUSH and CALL decrement register 7 without testing it against a lower
  bound. With \<open>v\<close> in register 7 and \<open>-255 \<le> v \<le> 0\<close> they raise no error: register 7
  becomes \<open>v - 1\<close> and the value (for CALL the return address) goes to memory cell
  \<open>255 + v\<close>, so that PUSH with 0 in register 7 leaves -1 there and writes cell 255. With
  \<open>v < -255\<close> register 7 still becomes \<open>v - 1\<close> and the store raises IndexError.
\<close>

theorem stack_underflow_wraps:
  assumes "length (ram s) = 256" and "length (reg s) = 8" and "reg s ! 7 = v" and "v \<le> 0"
  shows "(ram_read s (pc s + 1) = Inr a \<longrightarrow> py_get ((reg s)[7 := v - 1]) a = Inr d \<longrightarrow>
            PUSH s = (if - 255 \<le> v
                      then Inr (s\<lparr>reg := (reg s)[7 := v - 1], ram := (ram s)[nat (255 + v) := d]\<rparr>)
                      else Inl (IndexError, s\<lparr>reg := (reg s)[7 := v - 1]\<rparr>)))
       \<and> (- 255 \<le> v \<longrightarrow> py_get ((ram s)[nat (255 + v) := pc s + 2]) (pc s + 1) = Inr b
            \<longrightarrow> py_get ((reg s)[7 := v - 1]) b = Inr t
            \<longrightarrow> CALL s = Inr (s\<lparr>pc := t, reg := (reg s)[7 := v - 1],
                                ram := (ram s)[nat (255 + v) := pc s + 2]\<rparr>))
       \<and> (v < - 255 \<longrightarrow>
            CALL s = Inl (IndexError, s\<lparr>pc := pc s + 1, reg := (reg s)[7 := v - 1]\<rparr>))"
proof -
  have get7: "py_get (reg s) sp = Inr v"
    and set7: "py_set (reg s) sp w = Inr ((reg s)[7 := w])" for w
    using assms(2,3) by (simp_all add: py_get_def py_set_def py_index_def sp_def)
  have top: "py_get ((reg s)[7 := v - 1]) sp = Inr (v - 1)"
    using assms(2) by (simp add: py_get_def py_index_def sp_def)
  have wrap: "py_set (ram s) (v - 1) w = Inr ((ram s)[nat (255 + v) := w])" if "- 255 \<le> v" for w
  proof -
    from that assms(4) have "nat (256 + (v - 1)) = nat (255 + v)" by simp
    with that assms(1,4) show ?thesis
      by (simp add: py_set_def py_index_def)
  qed
  have fail: "py_set (ram s) (v - 1) w = Inl IndexError" if "v < - 255" for w
    using that assms(1) by (simp add: py_set_def py_index_def)
  have push_ok: "PUSH s = Inr (s\<lparr>reg := (reg s)[7 := v - 1], ram := (ram s)[nat (255 + v) := d]\<rparr>)"
    if "ram_read s (pc s + 1) = Inr a" "py_get ((reg s)[7 := v - 1]) a = Inr d" "- 255 \<le> v"
    using that get7 set7 top wrap by (simp add: PUSH_def Let_def ram_read_def)
  have push_fail: "PUSH s = Inl (IndexError, s\<lparr>reg := (reg s)[7 := v - 1]\<rparr>)"
    if "ram_read s (pc s + 1) = Inr a" "py_get ((reg s)[7 := v - 1]) a = Inr d" "\<not> - 255 \<le> v"
    using that get7 set7 top fail by (simp add: PUSH_def Let_def ram_read_def)
  have call_ok: "CALL s = Inr (s\<lparr>pc := t, reg := (reg s)[7 := v - 1],
                                ram := (ram s)[nat (255 + v) := pc s + 2]\<rparr>)"
    if "- 255 \<le> v" "py_get ((ram s)[nat (255 + v) := pc s + 2]) (pc s + 1) = Inr b"
      "py_get ((reg s)[7 := v - 1]) b = Inr t"
  proof -
    from wrap [OF that(1)]
    have "py_set (ram s) (v - 1) (2 + pc s) = Inr ((ram s)[nat (255 + v) := pc s + 2])"
      by (simp add: add.commute)
    with that get7 set7 top show ?thesis
      by (simp add: CALL_def Let_def ram_read_def)
  qed
  have call_fail: "CALL s = Inl (IndexError, s\<lparr>pc := pc s + 1, reg := (reg s)[7 := v - 1]\<rparr>)"
    if "v < - 255"
    using fail [OF that] get7 set7 top by (simp add: CALL_def Let_def ram_read_def)
  from push_ok push_fail call_ok call_fail show ?thesis
    by auto
qed

theorem stack_underflow_wraps_witness:
  "length (ram push_zero) = 256 \<and> length (reg push_zero) = 8 \<and> reg push_zero ! 7 = 0
   \<and> ram_read push_zero (pc push_zero + 1) = Inr 0
   \<and> py_get ((reg push_zero)[7 := - 1]) 0 = Inr 5
   \<and> PUSH push_zero =
       Inr (push_zero\<lparr>reg := (reg push_zero)[7 := - 1], ram := (ram push_zero)[255 := 5]\<rparr>)
   \<and> CALL (push_zero\<lparr>pc := 2\<rparr>) =
       Inr (push_zero\<lparr>pc := 9, reg := (reg push_zero)[7 := - 1], ram := (ram push_zero)[255 := 4]\<rparr>)"
proof -
  have h: "length (ram push_zero) = 256" "length (reg push_zero) = 8" "reg push_zero ! 7 = 0"
    "(0::int) \<le> 0"
    by (simp_all add: push_zero_def)
  have o: "ram_read push_zero (pc push_zero + 1) = Inr 0"
    "py_get ((reg push_zero)[7 := 0 - 1]) 0 = Inr 5"
    by (simp_all add: push_zero_def init_def ram_read_def py_get_def py_index_def)
  let ?c = "push_zero\<lparr>pc := 2\<rparr>"
  have hc: "length (ram ?c) = 256" "length (reg ?c) = 8" "reg ?c ! 7 = 0"
    by (simp_all add: push_zero_def)
  have oc: "py_get ((ram ?c)[nat (255 + 0) := pc ?c + 2]) (pc ?c + 1) = Inr 1"
    "py_get ((reg ?c)[7 := 0 - 1]) 1 = Inr 9"
    by (simp_all add: push_zero_def init_def py_get_def py_index_def)
  from stack_underflow_wraps [OF h, of 0 5] stack_underflow_wraps [OF hc h(4), of 0 0 1 9] h o oc
  show ?thesis
    by simp
qed

subsection \<open>Arithmetic\<close>

text \<open>
  Claim C6, as stated, fails: ADD on registers holding 200 and 100 leaves 300 in the
  destination register, not 44.
\<close>

theorem ADD_wraps_counterexample:
  "ADD add_example = Inr (add_example\<lparr>reg := [300, 100, 0, 0, 0, 0, 0, 244]\<rparr>)
   \<and> py_get [300, 100, 0, 0, 0, 0, 0, 244] 0 \<noteq> Inr ((200 + 100) mod 256 :: int)"
  by (simp add: add_example_def init_def ADD_def alu_def ram_read_def py_get_def py_set_def
      py_index_def)

text \<open>
  Claim C6, amended. ADD leaves the sum and MUL the product of the two registers in the
  destination register as integers of unbounded size: nothing is reduced modulo 256, and
  nothing else of the state changes.
\<close>

theorem ADD_MUL_unbounded:
  assumes "ram_read s (pc s + 1) = Inr a" and "ram_read s (pc s + 2) = Inr b"
    and "py_get (reg s) a = Inr x" and "py_get (reg s) b = Inr y"
  shows "\<exists>k. py_index (length (reg s)) a = Inr k
           \<and> ADD s = Inr (s\<lparr>reg := (reg s)[k := x + y]\<rparr>)
           \<and> py_get ((reg s)[k := x + y]) a = Inr (x + y)
           \<and> MUL s = Inr (s\<lparr>reg := (reg s)[k := x * y]\<rparr>)
           \<and> py_get ((reg s)[k := x * y]) a = Inr (x * y)"
proof -
  from py_get_index [OF assms(3)] obtain k where
    k: "py_index (length (reg s)) a = Inr k" "k < length (reg s)"
    by blast
  with assms show ?thesis
    by (simp add: ADD_def MUL_def alu_def py_set_def py_get_def)
qed

theorem ADD_MUL_unbounded_witness:
  "ram_read add_example (pc add_example + 1) = Inr 0
   \<and> ram_read add_example (pc add_example + 2) = Inr 1
   \<and> py_get (reg add_example) 0 = Inr 200 \<and> py_get (reg add_example) 1 = Inr 100
   \<and> ADD add_example = Inr (add_example\<lparr>reg := (reg add_example)[0 := 300]\<rparr>)
   \<and> MUL add_example = Inr (add_example\<lparr>reg := (reg add_example)[0 := 20000]\<rparr>)"
proof -
  have h: "ram_read add_example (pc add_example + 1) = Inr 0"
    "ram_read add_example (pc add_example + 2) = Inr 1"
    "py_get (reg add_example) 0 = Inr 200" "py_get (reg add_example) 1 = Inr 100"
    by (simp_all add: add_example_def init_def ram_read_def py_get_def py_index_def)
  have k: "py_index (length (reg add_example)) 0 = Inr 0"
    by (simp add: add_example_def py_index_def)
  from ADD_MUL_unbounded [OF h] h k show ?thesis
    by simp
qed

subsection \<open>Loading a program that does not fit\<close>

text \<open>
  The copy loop started at index \<open>i\<close> with more values than cells left: it fills the cells
  from \<open>i\<close> to the end and raises IndexError at the first index past the end.
\<close>

lemma load_copy_overflow:
  "i \<le> length (ram s) \<Longrightarrow> length (ram s) < i + length vs \<Longrightarrow>
     load_copy s i vs =
       Inl (IndexError, s\<lparr>ram := take i (ram s) @ take (length (ram s) - i) vs\<rparr>)"
proof (induction vs arbitrary: s i)
  case Nil
  then show ?case by simp
next
  case (Cons v rest)
  show ?case
  proof (cases "i < length (ram s)")
    case True
    then have stored: "py_set (ram s) (int i) v = Inr ((ram s)[i := v])"
      by (simp add: py_set_def py_index_def)
    let ?s = "s\<lparr>ram := (ram s)[i := v]\<rparr>"
    from True Cons.prems have "Suc i \<le> length (ram ?s)" "length (ram ?s) < Suc i + length rest"
      by simp_all
    from Cons.IH [OF this] have
      "load_copy ?s (Suc i) rest =
         Inl (IndexError, ?s\<lparr>ram := take (Suc i) (ram ?s) @ take (length (ram ?s) - Suc i) rest\<rparr>)" .
    moreover from True have "take (Suc i) ((ram s)[i := v]) = take i (ram s) @ [v]"
      by (simp add: take_Suc_conv_app_nth)
    moreover from True have "length (ram s) - i = Suc (length (ram s) - Suc i)"
      by simp
    then have "take (length (ram s) - i) (v # rest) = v # take (length (ram s) - Suc i) rest"
      by simp
    ultimately show ?thesis
      using stored by simp
  next
    case False
    with Cons.prems have "i = length (ram s)" by simp
    then show ?thesis
      by (simp add: py_set_def py_index_def)
  qed
qed

text \<open>
  A program longer than the memory: \<open>load\<close> prints the warning, overwrites the whole memory
  with the first values of the program and raises IndexError.
\<close>

lemma load_too_large:
  assumes "length (ram s) < length program"
  shows "load s program =
           Inl (IndexError,
                s\<lparr>console := console s @
                     [PrintStr ''The program is too large. Please upgrade the RAM.''],
                  ram := take (length (ram s)) program\<rparr>)"
  using assms
    load_copy_overflow [of 0 "s\<lparr>console := console s @
      [PrintStr ''The program is too large. Please upgrade the RAM.'']\<rparr>" program]
  by (simp add: load_def)

text \<open>
  Claim C7 says that loading a program longer than the memory prints the warning and
  completes the copy without an exception. The code does not do that: on a fresh processor,
  loading a program of 257 values prints the warning, fills the 256 cells and then raises
  IndexError.
\<close>

theorem load_oversized_raises:
  "load init (replicate 257 1) =
     Inl (IndexError,
          init\<lparr>console := [PrintStr ''The program is too large. Please upgrade the RAM.''],
               ram := replicate 256 1\<rparr>)"
proof -
  have "length (ram init) < length (replicate 257 (1::int))" "length (ram init) = 256"
    "console init = []"
    by (simp_all add: init_def)
  from load_too_large [OF this(1)] this(2,3) show ?thesis
    by simp
qed

subsection \<open>Unknown opcodes\<close>

lemma bin_digits_length: "n < 2 ^ Suc k \<Longrightarrow> length (bin_digits n) \<le> Suc k"
proof (induction k arbitrary: n)
  case 0
  then show ?case by (subst bin_digits.simps) simp
next
  case (Suc k)
  show ?case
  proof (cases "n < 2")
    case True
    then show ?thesis by (subst bin_digits.simps) simp
  next
    case False
    from Suc.prems have "n div 2 < 2 ^ Suc k"
      by simp
    from Suc.IH [OF this] False show ?thesis
      by (subst bin_digits.simps) simp
  qed
qed

lemma bin_value_append:
  "bin_value (ds @ [c]) = 2 * bin_value ds + (if c = CHR ''1'' then 1 else 0)"
  by (simp add: bin_value_def)

lemma bin_value_digits: "bin_value (bin_digits n) = n"
proof (induction n rule: bin_digits.induct)
  case (1 n)
  show ?case
  proof (cases "n < 2")
    case True
    then show ?thesis
      by (subst bin_digits.simps) (auto simp: bin_value_def)
  next
    case False
    with 1 have "bin_value (bin_digits (n div 2)) = n div 2" by simp
    with False have "bin_value (bin_digits n) = 2 * (n div 2) + (if n mod 2 = 0 then 0 else 1)"
      by (subst bin_digits.simps) (simp add: bin_value_append)
    also have "\<dots> = n"
      by presburger
    finally show ?thesis .
  qed
qed

lemma bin_value_zeros: "bin_value (replicate k CHR ''0'' @ ds) = bin_value ds"
  by (induction k) (simp_all add: bin_value_def)

lemma bin_digits_chars: "set (bin_digits n) \<subseteq> {CHR ''0'', CHR ''1''}"
proof (induction n rule: bin_digits.induct)
  case (1 n)
  show ?case
  proof (cases "n < 2")
    case True
    then show ?thesis by (subst bin_digits.simps) simp
  next
    case False
    with 1 have "set (bin_digits (n div 2)) \<subseteq> {CHR ''0'', CHR ''1''}" by simp
    with False show ?thesis
      by (subst bin_digits.simps) auto
  qed
qed

text \<open>A byte is printed as exactly eight binary digits that denote it.\<close>

lemma format_08b_byte:
  assumes "0 \<le> i" and "i < 256"
  shows "length (format_08b i) = 8" and "int (bin_value (format_08b i)) = i"
    and "set (format_08b i) \<subseteq> {CHR ''0'', CHR ''1''}"
proof -
  from assms have "nat i < 2 ^ 8" by simp
  then have len: "length (bin_digits (nat i)) \<le> 8"
    using bin_digits_length [of "nat i" 7] by simp
  from assms len show "length (format_08b i) = 8"
    by (simp add: format_08b_def zero_pad_def)
  from assms show "int (bin_value (format_08b i)) = i"
    by (simp add: format_08b_def zero_pad_def bin_value_zeros bin_value_digits)
  from assms bin_digits_chars [of "nat i"] show "set (format_08b i) \<subseteq> {CHR ''0'', CHR ''1''}"
    by (auto simp: format_08b_def zero_pad_def)
qed

text \<open>
  Claim C8. When the byte at pc is not a key of the dispatch table, the cycle raises an
  exception whose message ends with that byte as eight binary digits; the state it leaves
  differs from the one before only in the instruction register, which holds the byte, so
  memory, registers, flags and pc are as they were and no handler has run. \<open>run\<close> ends
  with that exception in its first cycle, whatever the fuel.
\<close>

theorem unknown_opcode_fatal:
  assumes "ram_read s (pc s) = Inr opcode"
    and "instruction_table opcode = None"
    and "0 \<le> opcode" and "opcode < 256"
  shows "cycle s = Inl (Exception (''Unsupported operation: '' @ format_08b opcode),
                        s\<lparr>ir := opcode\<rparr>)
       \<and> run (Suc n) s =
           Some (Inl (Exception (''Unsupported operation: '' @ format_08b opcode),
                      s\<lparr>working := True, ir := opcode\<rparr>))
       \<and> length (format_08b opcode) = 8
       \<and> set (format_08b opcode) \<subseteq> {CHR ''0'', CHR ''1''}
       \<and> int (bin_value (format_08b opcode)) = opcode"
proof -
  from assms(1,2)
  have c: "cycle s' = Inl (Exception (''Unsupported operation: '' @ format_08b opcode),
                           s'\<lparr>ir := opcode\<rparr>)"
    if "ram s' = ram s" "pc s' = pc s" for s'
    using that by (simp add: cycle_def ram_read_def)
  have "run (Suc n) s = Some (Inl (Exception (''Unsupported operation: '' @ format_08b opcode),
                      s\<lparr>working := True, ir := opcode\<rparr>))"
    unfolding run_def by (subst run_loop.simps) (simp add: c)
  with c [of s] format_08b_byte [OF assms(3,4)] show ?thesis
    by simp
qed

theorem unknown_opcode_fatal_witness:
  "ram_read bad_opcode_example (pc bad_opcode_example) = Inr 3 \<and> instruction_table 3 = None
   \<and> cycle bad_opcode_example =
       Inl (Exception ''Unsupported operation: 00000011'', bad_opcode_example\<lparr>ir := 3\<rparr>)
   \<and> run 1 bad_opcode_example =
       Some (Inl (Exception ''Unsupported operation: 00000011'',
                  bad_opcode_example\<lparr>working := True, ir := 3\<rparr>))"
proof -
  have h: "ram_read bad_opcode_example (pc bad_opcode_example) = Inr 3"
    "instruction_table 3 = None"
    by (simp_all add: bad_opcode_example_def init_def ram_read_def py_get_def py_index_def
        instruction_table_def)
  have f: "format_08b 3 = ''00000011''"
    by code_simp
  from unknown_opcode_fatal [OF h, of 0] h f show ?thesis
    by simp
qed

end
